theory Spec2Isabelle
  imports Complex_Main "HOL-Library.Log_Nat"
begin

section \<open>Conventions of the embedding\<close>

text \<open>
  The two modules \<^verbatim>\<open>linear_cache.py\<close> and \<^verbatim>\<open>linear_enhanced.py\<close> are embedded
  shallowly. Python objects become records, and a method becomes a function of its
  arguments and of the object's state: one that returns a value gives the pair of the
  value and the state it leaves behind, one that returns nothing gives that state. The
  two \<^verbatim>\<open>determine_\<close> methods read no attribute of the object (only the class constant
  \<^verbatim>\<open>MILESTONES\<close>) and are functions of their arguments alone.

  \<^item> Python \<^verbatim>\<open>int\<close> is \<open>int\<close>. A Python \<^verbatim>\<open>float\<close> is the \<open>real\<close> number that the
    double stands for, and every arithmetic operation on floats rounds its exact result
    to the nearest double (\<open>rd\<close> below), as IEEE 754 does. Clock readings are only
    subtracted and compared with a constant, and are reals.
  \<^item> A dictionary with string keys whose presence the code tests (\<^verbatim>\<open>.get\<close>,
    \<^verbatim>\<open>in\<close>) is a record of \<open>option\<close> fields when its keys are fixed, and a map
    \<open>string \<rightharpoonup> 'v\<close> when they are data.
  \<^item> The clock (\<^verbatim>\<open>time.time()\<close>, \<^verbatim>\<open>datetime.now()\<close>) is an argument \<open>now\<close>
    of every function that reads it; one call reads one instant.
  \<^item> Console output (\<^verbatim>\<open>print\<close>) is not part of the model.
\<close>

section \<open>\<^verbatim>\<open>linear_enhanced.py\<close>: milestones and health\<close>

record milestone =
  m_name :: string
  m_description :: string
  target_percentage :: int

definition MILESTONES :: "(string \<times> milestone) list" where
  "MILESTONES =
    [(''setup'',
        \<lparr>m_name = ''Project Setup'',
         m_description = ''Initial project scaffolding and infrastructure'',
         target_percentage = 10\<rparr>),
     (''core'',
        \<lparr>m_name = ''Core Features'',
         m_description = ''Essential functionality and critical features'',
         target_percentage = 40\<rparr>),
     (''features'',
        \<lparr>m_name = ''Feature Implementation'',
         m_description = ''Secondary features and enhancements'',
         target_percentage = 75\<rparr>),
     (''polish'',
        \<lparr>m_name = ''Polish & Refinement'',
         m_description = ''UI polish, performance optimization, bug fixes'',
         target_percentage = 95\<rparr>),
     (''complete'',
        \<lparr>m_name = ''Project Complete'',
         m_description = ''All features implemented and tested'',
         target_percentage = 100\<rparr>)]"

text \<open>The dictionary that \<^verbatim>\<open>determine_current_milestone\<close> returns.\<close>

record milestone_info =
  key :: string
  name :: string
  description :: string
  target :: int

text \<open>
  The \<^verbatim>\<open>for\<close> loop over \<^verbatim>\<open>self.MILESTONES.items()\<close> (insertion order), returning at
  the first entry with \<^verbatim>\<open>progress_percentage < milestone['target_percentage']\<close>; the
  second argument is the part of the table still to visit. When the loop runs out, the
  code returns the \<^verbatim>\<open>'complete'\<close> entry of the table (which has this key) with the
  literal target 100.
\<close>

fun milestone_loop :: "real \<Rightarrow> (string \<times> milestone) list \<Rightarrow> milestone_info" where
  "milestone_loop p [] =
     (case map_of MILESTONES ''complete'' of
        Some m \<Rightarrow> \<lparr>key = ''complete'', name = m_name m, description = m_description m,
                   target = 100\<rparr>
      | None \<Rightarrow> \<lparr>key = ''complete'', name = [], description = [], target = 100\<rparr>)"
| "milestone_loop p ((k, m) # rest) =
     (if p < of_int (target_percentage m)
      then \<lparr>key = k, name = m_name m, description = m_description m,
            target = target_percentage m\<rparr>
      else milestone_loop p rest)"

definition determine_current_milestone :: "real \<Rightarrow> milestone_info" where
  "determine_current_milestone progress_percentage =
     milestone_loop progress_percentage MILESTONES"



section \<open>\<^verbatim>\<open>linear_enhanced.py\<close>: progress\<close>

text \<open>
  A work item as the tracker returns it. Each field is the result of the \<^verbatim>\<open>.get\<close>
  the code makes, \<open>None\<close> when the key is missing; \<open>issue_state_name\<close> is
  \<^verbatim>\<open>i.get('state', {}).get('name')\<close>, for an item whose state, when it has one, is a
  dictionary.
\<close>

record issue =
  issue_id :: "string option"
  issue_title :: "string option"
  issue_description :: "string option"
  issue_priority :: "int option"
  issue_state_name :: "string option"

text \<open>
  What a session reports to \<^verbatim>\<open>update_session_history\<close>: the four keys the method
  reads, each \<open>None\<close> when missing.
\<close>

record session_summary =
  s_health :: "string option"
  s_progress_percentage :: "real option"
  s_velocity :: "real option"
  s_issues_completed :: "int option"

record health_entry =
  h_timestamp :: real
  h_health :: string
  h_progress :: real

record velocity_entry =
  v_timestamp :: real
  v_velocity :: real
  v_issues_completed :: int

text \<open>
  \<^verbatim>\<open>self.project_data\<close>, the content of \<^verbatim>\<open>.linear_project.json\<close>: a dictionary, so
  every key may be missing.
\<close>

record project_data =
  initialized :: "bool option"
  created_at :: "real option"
  project_id :: "string option"
  project_name :: "string option"
  pd_total_issues :: "int option"
  issues_by_priority :: "(string \<times> int) list option"
  milestones_created :: "bool option"
  session_count :: "int option"
  milestones :: "(string \<times> milestone) list option"
  health_history :: "health_entry list option"
  velocity_history :: "velocity_entry list option"
  session_history :: "session_summary list option"

definition empty_project_data :: project_data where
  "empty_project_data =
     \<lparr>initialized = None, created_at = None, project_id = None, project_name = None,
      pd_total_issues = None, issues_by_priority = None, milestones_created = None,
      session_count = None, milestones = None, health_history = None,
      velocity_history = None, session_history = None\<rparr>"

text \<open>
  The integration object: its \<^verbatim>\<open>project_data\<close>, and the project file on disk
  (\<open>None\<close> when it does not exist) with whether the file can be written. The
  \<^verbatim>\<open>cache\<close> attribute is stored and never used by the methods below.
\<close>

record enhanced =
  project_data :: project_data
  project_file :: "project_data option"
  project_file_writable :: bool

datatype py_error = OSError | OverflowError

definition load_project_data :: "project_data option \<Rightarrow> project_data" where
  "load_project_data file = (case file of Some d \<Rightarrow> d | None \<Rightarrow> empty_project_data)"

text \<open>\<^verbatim>\<open>_save_project_data\<close> does not catch the error of a failed write.\<close>

definition save_project_data :: "enhanced \<Rightarrow> (py_error + unit) \<times> enhanced" where
  "save_project_data st =
     (if project_file_writable st
      then (Inr (), st\<lparr>project_file := Some (project_data st)\<rparr>)
      else (Inl OSError, st))"

subsection \<open>Floats\<close>

text \<open>
  Rounding a real to the nearest integer, a tie going to the even neighbour.
\<close>

definition rne :: "real \<Rightarrow> int" where
  "rne y =
     (let f = \<lfloor>y\<rfloor> in
      if y - of_int f < 1 / 2 then f
      else if 1 / 2 < y - of_int f then f + 1
      else if even f then f else f + 1)"

text \<open>
  For \<open>x > 0\<close>, \<open>ilog2 x\<close> is the integer \<open>e\<close> with \<open>2\<^sup>e \<le> x < 2\<^sup>e\<^sup>+\<^sup>1\<close>. A double
  has 53 significant bits and an exponent of at least \<open>-1022\<close> (below, the numbers are
  subnormal), so the doubles around \<open>x\<close> are the multiples of \<open>ulp x\<close>, and \<open>rd x\<close> is
  the nearest of them, a tie going to the even multiple. A result of magnitude
  \<open>2\<^sup>1\<^sup>0\<^sup>2\<^sup>4 - 2\<^sup>9\<^sup>7\<^sup>0\<close> or more is no double: the operation overflows to infinity.
\<close>

definition ilog2 :: "real \<Rightarrow> int" where
  "ilog2 x = (if 1 \<le> x then bitlen \<lfloor>x\<rfloor> - 1 else - bitlen (\<lceil>1 / x\<rceil> - 1))"

definition expo :: "real \<Rightarrow> int" where
  "expo x = max (ilog2 \<bar>x\<bar>) (- 1022)"

definition ulp :: "real \<Rightarrow> real" where
  "ulp x = 2 powi (expo x - 52)"

definition rd :: "real \<Rightarrow> real" where
  "rd x = (if x = 0 then 0 else of_int (rne (x / ulp x)) * ulp x)"

definition overflows :: "real \<Rightarrow> bool" where
  "overflows x \<longleftrightarrow> 2 ^ 1024 - 2 ^ 970 \<le> \<bar>x\<bar>"

text \<open>
  The operations the code uses. \<open>fl_int\<close> is the conversion of an \<^verbatim>\<open>int\<close> operand
  that meets a float; \<open>true_div\<close> is \<^verbatim>\<open>/\<close> on two \<^verbatim>\<open>int\<close>s, which rounds the exact
  quotient once. The integers converted here are counts of list items, below \<open>2\<^sup>6\<^sup>3\<close> in
  any list that CPython can hold, so the conversion does not overflow.
\<close>

definition fl_int :: "int \<Rightarrow> real" where
  "fl_int i = rd (of_int i)"

definition fadd :: "real \<Rightarrow> real \<Rightarrow> real" where
  "fadd x y = rd (x + y)"

definition fmul :: "real \<Rightarrow> real \<Rightarrow> real" where
  "fmul x y = rd (x * y)"

definition fdiv :: "real \<Rightarrow> real \<Rightarrow> real" where
  "fdiv x y = rd (x / y)"

definition true_div :: "int \<Rightarrow> int \<Rightarrow> real" where
  "true_div a b = rd (of_int a / of_int b)"

text \<open>
  Python's \<^verbatim>\<open>round(x, ndigits)\<close> on a float: the value of the double is rounded to
  \<open>ndigits\<close> decimals, a tie going to the even digit, and the decimal is converted back
  to the nearest double. \<^verbatim>\<open>int(x)\<close> truncates towards zero; \<^verbatim>\<open>str\<close> of an integer is
  its decimal digits.
\<close>

definition py_round :: "real \<Rightarrow> nat \<Rightarrow> real" where
  "py_round x ndigits = rd (of_int (rne (x * 10 ^ ndigits)) / 10 ^ ndigits)"

definition py_int :: "real \<Rightarrow> int" where
  "py_int x = (if 0 \<le> x then \<lfloor>x\<rfloor> else \<lceil>x\<rceil>)"

fun str_nat :: "nat \<Rightarrow> string" where
  "str_nat n =
     (if n < 10 then [''0123456789'' ! n]
      else str_nat (n div 10) @ [''0123456789'' ! (n mod 10)])"

definition str_int :: "int \<Rightarrow> string" where
  "str_int i = (if i < 0 then CHR ''-'' # str_nat (nat (- i)) else str_nat (nat i))"

text \<open>The dictionary that \<^verbatim>\<open>calculate_progress\<close> returns.\<close>

record progress =
  total_issues :: int
  completed :: int
  in_progress :: int
  todo :: int
  progress_percentage :: real
  velocity :: real
  estimated_completion :: string

definition count_state :: "string \<Rightarrow> issue list \<Rightarrow> int" where
  "count_state st issues = int (length (filter (\<lambda>i. issue_state_name i = Some st) issues))"

text \<open>
  \<^verbatim>\<open>calculate_progress\<close>. The quotient \<^verbatim>\<open>remaining_issues / velocity\<close> may overflow to
  infinity (a float division does not raise); then \<^verbatim>\<open>int(days)\<close> raises
  \<^verbatim>\<open>OverflowError\<close>.
\<close>

definition calculate_progress ::
  "issue list \<Rightarrow> enhanced \<Rightarrow> (py_error + progress) \<times> enhanced" where
  "calculate_progress issues st =
     (let total = int (length issues);
          completed = count_state ''Done'' issues;
          in_progress = count_state ''In Progress'' issues;
          todo = total - completed - in_progress;
          progress_percentage =
            (if total > 0
             then fmul (fdiv (fadd (fl_int completed) (fmul 0.25 (fl_int in_progress)))
                         (fl_int total)) 100
             else 0);
          sessions = (case session_count (project_data st) of Some n \<Rightarrow> n | None \<Rightarrow> 1);
          velocity = (if sessions > 0 then true_div completed sessions else 0);
          remaining_issues = todo + in_progress;
          result =
            \<lparr>total_issues = total, completed = completed, in_progress = in_progress,
             todo = todo, progress_percentage = py_round progress_percentage 1,
             velocity = py_round velocity 2, estimated_completion = ''Unknown''\<rparr>
      in if velocity > 0
         then if overflows (fl_int remaining_issues / velocity)
              then (Inl OverflowError, st)
              else (Inr (result\<lparr>estimated_completion :=
                      str_int (py_int (fmul (fdiv (fl_int remaining_issues) velocity) 0.5))
                        @ '' days''\<rparr>), st)
         else (Inr result, st))"

definition create_initializer_summary ::
  "real \<Rightarrow> string \<Rightarrow> string \<Rightarrow> int \<Rightarrow> (string \<times> int) list \<Rightarrow> bool \<Rightarrow> project_data" where
  "create_initializer_summary now pid pname n_issues by_priority created =
     \<lparr>initialized = Some True, created_at = Some now, project_id = Some pid,
      project_name = Some pname, pd_total_issues = Some n_issues,
      issues_by_priority = Some by_priority, milestones_created = Some created,
      session_count = Some 0, milestones = Some MILESTONES, health_history = Some [],
      velocity_history = Some [], session_history = None\<rparr>"

definition update_session_history ::
  "real \<Rightarrow> session_summary \<Rightarrow> enhanced \<Rightarrow> (py_error + unit) \<times> enhanced" where
  "update_session_history now summary st =
     (let pd = project_data st;
          sh = (case session_history pd of Some h \<Rightarrow> h | None \<Rightarrow> []) @ [summary];
          hh = (case health_history pd of Some h \<Rightarrow> h | None \<Rightarrow> []) @
               [\<lparr>h_timestamp = now,
                 h_health = (case s_health summary of Some h \<Rightarrow> h | None \<Rightarrow> ''unknown''),
                 h_progress =
                   (case s_progress_percentage summary of Some p \<Rightarrow> p | None \<Rightarrow> 0)\<rparr>];
          vh = (case velocity_history pd of Some h \<Rightarrow> h | None \<Rightarrow> []) @
               [\<lparr>v_timestamp = now,
                 v_velocity = (case s_velocity summary of Some v \<Rightarrow> v | None \<Rightarrow> 0),
                 v_issues_completed =
                   (case s_issues_completed summary of Some n \<Rightarrow> n | None \<Rightarrow> 0)\<rparr>]
      in save_project_data
           (st\<lparr>project_data :=
                 pd\<lparr>session_history := Some sh, session_count := Some (int (length sh)),
                    health_history := Some hh, velocity_history := Some vh\<rparr>\<rparr>))"

section \<open>\<^verbatim>\<open>linear_cache.py\<close>: the cache\<close>

text \<open>An entry of \<^verbatim>\<open>permanent_cache['issues']\<close>, as \<^verbatim>\<open>cache_issue\<close> builds it.\<close>

record cached_issue =
  c_id :: string
  c_title :: "string option"
  c_description :: "string option"
  c_priority :: "int option"
  cached_at :: real

text \<open>An entry of \<^verbatim>\<open>session_cache\<close>, as \<^verbatim>\<open>cache_session_issues\<close> builds it.\<close>

record session_entry =
  issues :: "issue list"
  timestamp :: real

text \<open>
  The cache file \<^verbatim>\<open>.linear_cache.json\<close>: missing, unreadable (\<^verbatim>\<open>json.load\<close>
  raises), or a document with the keys \<^verbatim>\<open>permanent\<close>, \<^verbatim>\<open>metadata\<close> and
  \<^verbatim>\<open>last_updated\<close>, of the shape that \<^verbatim>\<open>save_cache\<close> writes.
\<close>

record cache_doc =
  doc_permanent :: "string \<rightharpoonup> cached_issue"
  doc_metadata :: "string \<rightharpoonup> string"
  last_updated :: real

datatype cache_file_state = Missing | Unreadable | Doc cache_doc

text \<open>
  A \<^verbatim>\<open>LinearCache\<close> object. \<open>permanent_issues\<close> is \<^verbatim>\<open>permanent_cache['issues']\<close>;
  \<open>cache_file\<close> is what is on disk and \<open>cache_file_writable\<close> says whether a write
  succeeds (\<^verbatim>\<open>save_cache\<close> catches the error of a failed one).
\<close>

record linear_cache =
  session_cache :: "string \<rightharpoonup> session_entry"
  api_call_count :: int
  api_call_timestamps :: "real list"
  permanent_issues :: "string \<rightharpoonup> cached_issue"
  metadata_cache :: "string \<rightharpoonup> string"
  cache_file :: cache_file_state
  cache_file_writable :: bool

definition load_cache :: "linear_cache \<Rightarrow> linear_cache" where
  "load_cache s =
     (case cache_file s of
        Doc d \<Rightarrow> s\<lparr>permanent_issues := doc_permanent d, metadata_cache := doc_metadata d\<rparr>
      | Unreadable \<Rightarrow> s\<lparr>permanent_issues := Map.empty, metadata_cache := Map.empty\<rparr>
      | Missing \<Rightarrow> s\<lparr>permanent_issues := Map.empty, metadata_cache := Map.empty\<rparr>)"

text \<open>\<^verbatim>\<open>LinearCache.__init__\<close>, from the state of the disk.\<close>

definition new_cache :: "cache_file_state \<Rightarrow> bool \<Rightarrow> linear_cache" where
  "new_cache file writable =
     load_cache
       \<lparr>session_cache = Map.empty, api_call_count = 0, api_call_timestamps = [],
        permanent_issues = Map.empty, metadata_cache = Map.empty,
        cache_file = file, cache_file_writable = writable\<rparr>"

definition save_cache :: "real \<Rightarrow> linear_cache \<Rightarrow> linear_cache" where
  "save_cache now s =
     (if cache_file_writable s
      then s\<lparr>cache_file :=
               Doc \<lparr>doc_permanent = permanent_issues s, doc_metadata = metadata_cache s,
                    last_updated = now\<rparr>\<rparr>
      else s)"

definition track_api_call :: "real \<Rightarrow> linear_cache \<Rightarrow> int \<times> linear_cache" where
  "track_api_call now s =
     (let one_hour_ago = now - 3600;
          ts = filter (\<lambda>t. t > one_hour_ago) (api_call_timestamps s @ [now])
      in (int (length ts),
          s\<lparr>api_call_count := api_call_count s + 1, api_call_timestamps := ts\<rparr>))"

definition get_cached_issue :: "string \<Rightarrow> linear_cache \<Rightarrow> cached_issue option \<times> linear_cache" where
  "get_cached_issue iid s = (permanent_issues s iid, s)"

definition cache_issue :: "real \<Rightarrow> string \<Rightarrow> issue \<Rightarrow> linear_cache \<Rightarrow> linear_cache" where
  "cache_issue now iid issue_data s =
     (if iid \<notin> dom (permanent_issues s)
      then save_cache now
             (s\<lparr>permanent_issues := (permanent_issues s)
                  (iid \<mapsto> \<lparr>c_id = iid, c_title = issue_title issue_data,
                           c_description = issue_description issue_data,
                           c_priority = issue_priority issue_data, cached_at = now\<rparr>)\<rparr>)
      else s)"

definition cache_key :: "string \<Rightarrow> string" where
  "cache_key pid = ''issues_'' @ pid"

definition get_session_issues ::
  "real \<Rightarrow> string \<Rightarrow> linear_cache \<Rightarrow> issue list option \<times> linear_cache" where
  "get_session_issues now pid s =
     (case session_cache s (cache_key pid) of
        Some cached_data \<Rightarrow>
          if now - timestamp cached_data < 300 then (Some (issues cached_data), s)
          else (None, s)
      | None \<Rightarrow> (None, s))"

text \<open>
  The loop of \<^verbatim>\<open>cache_session_issues\<close>: \<^verbatim>\<open>if issue.get('id')\<close> holds for an id that
  is present and not the empty string.
\<close>

fun cache_each :: "real \<Rightarrow> issue list \<Rightarrow> linear_cache \<Rightarrow> linear_cache" where
  "cache_each now [] s = s"
| "cache_each now (i # rest) s =
     cache_each now rest
       (case issue_id i of
          Some iid \<Rightarrow> if iid \<noteq> [] then cache_issue now iid i s else s
        | None \<Rightarrow> s)"

definition cache_session_issues ::
  "real \<Rightarrow> string \<Rightarrow> issue list \<Rightarrow> linear_cache \<Rightarrow> linear_cache" where
  "cache_session_issues now pid iss s =
     cache_each now iss
       (s\<lparr>session_cache := (session_cache s)
            (cache_key pid \<mapsto> \<lparr>issues = iss, timestamp = now\<rparr>)\<rparr>)"

definition invalidate_session_cache :: "string \<Rightarrow> linear_cache \<Rightarrow> linear_cache" where
  "invalidate_session_cache pid s =
     (if cache_key pid \<in> dom (session_cache s)
      then s\<lparr>session_cache := (session_cache s)(cache_key pid := None)\<rparr>
      else s)"

text \<open>
  The dictionary that \<^verbatim>\<open>get_api_stats\<close> returns; \<^verbatim>\<open>len\<close> of the dictionary of
  cached issues is the number of its keys.
\<close>

record api_stats =
  total_calls_session :: int
  calls_last_hour :: int
  rate_limit :: int
  percentage_used :: real
  cached_issues :: int

definition get_api_stats :: "linear_cache \<Rightarrow> api_stats \<times> linear_cache" where
  "get_api_stats s =
     (let n = int (length (api_call_timestamps s))
      in (\<lparr>total_calls_session = api_call_count s, calls_last_hour = n,
           rate_limit = 1500, percentage_used = of_int n / 1500 * 100,
           cached_issues = int (card (dom (permanent_issues s)))\<rparr>, s))"

text \<open>
  \<^verbatim>\<open>CachedLinearClient.update_issue\<close>: the body records the call and prints; the call
  to \<^verbatim>\<open>invalidate_session_cache\<close> is a comment in the source.
\<close>

definition update_issue :: "real \<Rightarrow> string \<Rightarrow> linear_cache \<Rightarrow> linear_cache" where
  "update_issue now iid s = snd (track_api_call now s)"

section \<open>Definitions for stating the properties\<close>

text \<open>What \<open>determine_current_milestone\<close> returns when no threshold is above the percentage.\<close>

definition complete_info :: milestone_info where
  "complete_info =
     \<lparr>key = ''complete'', name = ''Project Complete'',
      description = ''All features implemented and tested'', target = 100\<rparr>"

text \<open>
  The weighted count \<^verbatim>\<open>completed + 0.25 * in_progress\<close> and the percentage before
  \<^verbatim>\<open>round\<close>, as \<open>calculate_progress\<close> computes them in floats.
\<close>

definition weighted :: "int \<Rightarrow> int \<Rightarrow> real" where
  "weighted c ip = fadd (fl_int c) (fmul 0.25 (fl_int ip))"

definition float_progress :: "issue list \<Rightarrow> real" where
  "float_progress iss =
     (if 0 < length iss
      then fmul (fdiv (weighted (count_state ''Done'' iss) (count_state ''In Progress'' iss))
                  (fl_int (int (length iss)))) 100
      else 0)"




subsection \<open>Example data\<close>

text \<open>Two versions of one work item, and an item whose id is the empty string.\<close>

definition issue_A :: issue where
  "issue_A =
     \<lparr>issue_id = Some ''X'', issue_title = Some ''first title'',
      issue_description = Some ''first text'', issue_priority = Some 2,
      issue_state_name = Some ''Todo''\<rparr>"

definition issue_B :: issue where
  "issue_B =
     \<lparr>issue_id = Some ''X'', issue_title = Some ''second title'',
      issue_description = Some ''second text'', issue_priority = Some 1,
      issue_state_name = Some ''Done''\<rparr>"


text \<open>
  A project as \<open>create_initializer_summary\<close> records it, before any session; and the
  same project with 3, 7 and 40 sessions counted.
\<close>

definition fresh_project :: enhanced where
  "fresh_project =
     \<lparr>project_data = create_initializer_summary 0 ''P'' ''Demo'' 3 [] False,
      project_file = None, project_file_writable = True\<rparr>"

definition third_session :: enhanced where
  "third_session =
     fresh_project\<lparr>project_data := (project_data fresh_project)\<lparr>session_count := Some 3\<rparr>\<rparr>"

definition seventh_session :: enhanced where
  "seventh_session =
     fresh_project\<lparr>project_data := (project_data fresh_project)\<lparr>session_count := Some 7\<rparr>\<rparr>"

definition fortieth_session :: enhanced where
  "fortieth_session =
     fresh_project\<lparr>project_data := (project_data fresh_project)\<lparr>session_count := Some 40\<rparr>\<rparr>"

section \<open>Milestone selection\<close>

lemma milestone_loop_find:
  "milestone_loop p xs =
     (case find (\<lambda>(k, m). p < of_int (target_percentage m)) xs of
        Some (k, m) \<Rightarrow>
          \<lparr>key = k, name = m_name m, description = m_description m,
           target = target_percentage m\<rparr>
      | None \<Rightarrow> complete_info)"
proof (induction xs)
  case Nil
  show ?case by (simp add: MILESTONES_def complete_info_def)
next
  case (Cons x xs)
  obtain k m where x: "x = (k, m)" by (cases x)
  show ?case unfolding x using Cons.IH by simp
qed

lemma milestone_key_cases:
  "key (determine_current_milestone p) =
     (if p < 10 then ''setup'' else if p < 40 then ''core''
      else if p < 75 then ''features'' else if p < 95 then ''polish''
      else ''complete'')"
  by (simp add: determine_current_milestone_def MILESTONES_def)

text \<open>
  Claim C5. The table lists setup (10), core (40), features (75), polish (95) and
  complete (100) in this order, and \<open>determine_current_milestone p\<close> is the first entry
  of it whose threshold is strictly above \<open>p\<close>, or the complete milestone when no
  threshold is. So the keys change exactly at the thresholds, the percentage 40 is in
  features and every percentage from 95 on is complete. The result depends on the
  percentage alone (the method reads nothing but the class constant), so two calls on
  one percentage agree.
\<close>

theorem determine_current_milestone_first_above:
  "map (\<lambda>(k, m). (k, target_percentage m)) MILESTONES =
     [(''setup'', 10), (''core'', 40), (''features'', 75), (''polish'', 95),
      (''complete'', 100)]
   \<and> determine_current_milestone p =
       (case find (\<lambda>(k, m). p < of_int (target_percentage m)) MILESTONES of
          Some (k, m) \<Rightarrow>
            \<lparr>key = k, name = m_name m, description = m_description m,
             target = target_percentage m\<rparr>
        | None \<Rightarrow> complete_info)
   \<and> key (determine_current_milestone p) =
       (if p < 10 then ''setup'' else if p < 40 then ''core''
        else if p < 75 then ''features'' else if p < 95 then ''polish''
        else ''complete'')
   \<and> key (determine_current_milestone 40) = ''features''
   \<and> (95 \<le> p \<longrightarrow> key (determine_current_milestone p) = ''complete'')"
proof -
  have tbl: "map (\<lambda>(k, m). (k, target_percentage m)) MILESTONES =
     [(''setup'', 10), (''core'', 40), (''features'', 75), (''polish'', 95),
      (''complete'', 100)]"
    by (simp add: MILESTONES_def)
  have first: "determine_current_milestone p =
       (case find (\<lambda>(k, m). p < of_int (target_percentage m)) MILESTONES of
          Some (k, m) \<Rightarrow>
            \<lparr>key = k, name = m_name m, description = m_description m,
             target = target_percentage m\<rparr>
        | None \<Rightarrow> complete_info)"
    unfolding determine_current_milestone_def by (rule milestone_loop_find)
  have at40: "key (determine_current_milestone 40) = ''features''"
    by (simp add: milestone_key_cases)
  have top: "95 \<le> p \<longrightarrow> key (determine_current_milestone p) = ''complete''"
    by (simp add: milestone_key_cases)
  from tbl first milestone_key_cases [of p] at40 top show ?thesis by blast
qed

text \<open>
  The percentages 97 and 12: the first is past every threshold but the last and is
  complete, the second is in core, whose threshold 40 is the first above it.
\<close>

theorem determine_current_milestone_first_above_witness:
  "key (determine_current_milestone 97) = ''complete''
   \<and> determine_current_milestone 97 = complete_info
   \<and> key (determine_current_milestone 12) = ''core''
   \<and> target (determine_current_milestone 12) = 40"
  using determine_current_milestone_first_above [of 97]
    determine_current_milestone_first_above [of 12]
  by (simp add: MILESTONES_def complete_info_def)

section \<open>Health classification\<close>


section \<open>The permanent tier is write-once\<close>

lemma save_cache_fields:
  "session_cache (save_cache now s) = session_cache s"
  "permanent_issues (save_cache now s) = permanent_issues s"
  "api_call_count (save_cache now s) = api_call_count s"
  "api_call_timestamps (save_cache now s) = api_call_timestamps s"
  by (simp_all add: save_cache_def)

lemma cache_issue_session_cache:
  "session_cache (cache_issue now iid d s) = session_cache s"
  by (simp add: cache_issue_def save_cache_fields)

lemma cache_issue_permanent:
  "permanent_issues (cache_issue now iid d s) =
     (case permanent_issues s iid of
        Some e \<Rightarrow> permanent_issues s
      | None \<Rightarrow> (permanent_issues s)
          (iid \<mapsto> \<lparr>c_id = iid, c_title = issue_title d,
                   c_description = issue_description d,
                   c_priority = issue_priority d, cached_at = now\<rparr>))"
  by (auto simp add: cache_issue_def save_cache_fields split: option.splits)

lemma cache_issue_present:
  "permanent_issues s iid = Some e \<Longrightarrow> cache_issue now iid d s = s"
  by (simp add: cache_issue_def dom_def)

lemma cache_issue_twice:
  "cache_issue now2 iid B (cache_issue now1 iid A s) = cache_issue now1 iid A s"
proof (cases "permanent_issues s iid")
  case None
  then have "permanent_issues (cache_issue now1 iid A s) iid \<noteq> None"
    by (simp add: cache_issue_permanent)
  then show ?thesis by (auto intro: cache_issue_present)
next
  case (Some e)
  then show ?thesis by (simp add: cache_issue_present)
qed

text \<open>
  Claim C1. After \<open>cache_issue\<close> of an id with data \<open>A\<close>, a second \<open>cache_issue\<close> of
  the same id with any data \<open>B\<close> changes nothing at all: the cache (its permanent tier,
  and the file on disk) is the one the first call left, and \<open>get_cached_issue\<close> answers
  as before. When the id was not cached before the first call, that answer is the entry
  built from \<open>A\<close> at the time of the first call; when it was, it is the entry that was
  there.
\<close>

theorem cache_issue_write_once:
  "cache_issue now2 iid B (cache_issue now1 iid A s) = cache_issue now1 iid A s
   \<and> fst (get_cached_issue iid (cache_issue now2 iid B (cache_issue now1 iid A s))) =
       fst (get_cached_issue iid (cache_issue now1 iid A s))
   \<and> (permanent_issues s iid = None \<longrightarrow>
        fst (get_cached_issue iid (cache_issue now2 iid B (cache_issue now1 iid A s))) =
          Some \<lparr>c_id = iid, c_title = issue_title A,
                c_description = issue_description A,
                c_priority = issue_priority A, cached_at = now1\<rparr>)
   \<and> (\<forall>e. permanent_issues s iid = Some e \<longrightarrow>
        fst (get_cached_issue iid (cache_issue now2 iid B (cache_issue now1 iid A s))) =
          Some e)"
  by (simp add: cache_issue_twice get_cached_issue_def cache_issue_permanent)

text \<open>
  In a new cache, \<open>issue_A\<close> cached at time 10 and then the differing \<open>issue_B\<close> under
  the same id at time 20: the entry read back is the one built from \<open>issue_A\<close>.
\<close>

theorem cache_issue_write_once_witness:
  "issue_A \<noteq> issue_B
   \<and> fst (get_cached_issue ''X''
        (cache_issue 20 ''X'' issue_B (cache_issue 10 ''X'' issue_A (new_cache Missing True)))) =
      Some \<lparr>c_id = ''X'', c_title = Some ''first title'',
            c_description = Some ''first text'', c_priority = Some 2, cached_at = 10\<rparr>"
proof -
  have fresh: "permanent_issues (new_cache Missing True) ''X'' = None"
    by (simp add: new_cache_def load_cache_def)
  have differ: "issue_A \<noteq> issue_B"
    by (simp add: issue_A_def issue_B_def)
  from cache_issue_write_once [of 20 "''X''" issue_B 10 issue_A "new_cache Missing True"] fresh
  have "fst (get_cached_issue ''X''
        (cache_issue 20 ''X'' issue_B (cache_issue 10 ''X'' issue_A (new_cache Missing True)))) =
      Some \<lparr>c_id = ''X'', c_title = issue_title issue_A,
            c_description = issue_description issue_A,
            c_priority = issue_priority issue_A, cached_at = 10\<rparr>"
    by blast
  with differ show ?thesis by (simp add: issue_A_def)
qed

section \<open>Freshness and invalidation of the session tier\<close>

lemma cache_each_session_cache:
  "session_cache (cache_each now iss s) = session_cache s"
  by (induction iss arbitrary: s)
     (simp_all add: cache_issue_session_cache split: option.splits)

lemma cache_session_issues_session_cache:
  "session_cache (cache_session_issues now pid iss s) =
     (session_cache s)(cache_key pid \<mapsto> \<lparr>issues = iss, timestamp = now\<rparr>)"
  by (simp add: cache_session_issues_def cache_each_session_cache)

lemma get_session_issues_result:
  "fst (get_session_issues now pid s) =
     (case session_cache s (cache_key pid) of
        Some e \<Rightarrow> if now - timestamp e < 300 then Some (issues e) else None
      | None \<Rightarrow> None)"
  by (simp add: get_session_issues_def split: option.splits)


lemma invalidate_session_cache_key:
  "session_cache (invalidate_session_cache pid s) (cache_key pid) = None"
  by (auto simp add: invalidate_session_cache_def)

text \<open>
  Claim C2. \<open>get_session_issues\<close> returns the stored list of a project exactly when
  the session tier has an entry under the project's key whose timestamp is less than
  300 seconds before the current time, and nothing otherwise. So a list stored by
  \<open>cache_session_issues\<close> at time \<open>t\<close> is returned unchanged at time \<open>t\<close> and at every
  \<open>t'\<close> with \<open>t' - t < 300\<close>; it is not returned once 300 seconds or more have passed;
  and after \<open>invalidate_session_cache\<close> of the project nothing is returned, whatever
  the time.
\<close>

theorem get_session_issues_fresh:
  "fst (get_session_issues now pid s) =
     (case session_cache s (cache_key pid) of
        Some e \<Rightarrow> if now - timestamp e < 300 then Some (issues e) else None
      | None \<Rightarrow> None)
   \<and> fst (get_session_issues t pid (cache_session_issues t pid iss s)) = Some iss
   \<and> (t' - t < 300 \<longrightarrow>
        fst (get_session_issues t' pid (cache_session_issues t pid iss s)) = Some iss)
   \<and> (300 \<le> t' - t \<longrightarrow>
        fst (get_session_issues t' pid (cache_session_issues t pid iss s)) = None)
   \<and> fst (get_session_issues t' pid (invalidate_session_cache pid s)) = None
   \<and> fst (get_session_issues t' pid
        (invalidate_session_cache pid (cache_session_issues t pid iss s))) = None"
  by (simp add: get_session_issues_result cache_session_issues_session_cache
      invalidate_session_cache_key)

text \<open>
  A list stored at time 1000 is returned at 1100, not at 1300, and not at 1001 once the
  project was invalidated.
\<close>

theorem get_session_issues_fresh_witness:
  "fst (get_session_issues 1100 ''P''
     (cache_session_issues 1000 ''P'' [issue_A] (new_cache Missing True))) = Some [issue_A]
   \<and> fst (get_session_issues 1300 ''P''
     (cache_session_issues 1000 ''P'' [issue_A] (new_cache Missing True))) = None
   \<and> fst (get_session_issues 1001 ''P''
     (invalidate_session_cache ''P''
       (cache_session_issues 1000 ''P'' [issue_A] (new_cache Missing True)))) = None"
proof -
  have early: "(1100::real) - 1000 < 300" by simp
  have late: "(300::real) \<le> 1300 - 1000" by simp
  from get_session_issues_fresh
    [where pid = "''P''" and s = "new_cache Missing True" and t = 1000
       and iss = "[issue_A]" and t' = 1100] early
  have a: "fst (get_session_issues 1100 ''P''
     (cache_session_issues 1000 ''P'' [issue_A] (new_cache Missing True))) = Some [issue_A]"
    by blast
  from get_session_issues_fresh
    [where pid = "''P''" and s = "new_cache Missing True" and t = 1000
       and iss = "[issue_A]" and t' = 1300] late
  have b: "fst (get_session_issues 1300 ''P''
     (cache_session_issues 1000 ''P'' [issue_A] (new_cache Missing True))) = None"
    by blast
  from get_session_issues_fresh
    [where pid = "''P''" and s = "new_cache Missing True" and t = 1000
       and iss = "[issue_A]" and t' = 1001]
  have c: "fst (get_session_issues 1001 ''P''
     (invalidate_session_cache ''P''
       (cache_session_issues 1000 ''P'' [issue_A] (new_cache Missing True)))) = None"
    by blast
  from a b c show ?thesis by blast
qed

section \<open>Where the permanent tier is filled\<close>









subsection \<open>The file agrees with the memory while it can be written\<close>










subsection \<open>Stored items stay cached\<close>












section \<open>The rate window\<close>

text \<open>
  \<open>track_api_call\<close> prunes: the window it leaves, and the count it returns, hold the
  recorded instants later than \<open>now - 3600\<close> only.
\<close>

lemma track_api_call_window:
  "fst (track_api_call now s) =
     int (length (filter (\<lambda>t. now - 3600 < t) (api_call_timestamps s @ [now])))
   \<and> api_call_timestamps (snd (track_api_call now s)) =
       filter (\<lambda>t. now - 3600 < t) (api_call_timestamps s @ [now])
   \<and> (\<forall>t \<in> set (api_call_timestamps (snd (track_api_call now s))). now - 3600 < t)"
  by (simp add: track_api_call_def Let_def)

text \<open>
  Claim C7 does not hold of \<open>get_api_stats\<close>, which reads no clock and prunes nothing:
  it reports the length of the window as the last \<open>track_api_call\<close> left it. After one
  call recorded at time 0 in a new cache, \<open>get_api_stats\<close> reports 1 under
  \<open>calls_last_hour\<close> and leaves the instant 0 in the window, at whatever time it is
  asked; at time 4000 no recorded instant is within the last 3600 seconds.
\<close>

theorem get_api_stats_counts_old_calls:
  "calls_last_hour (fst (get_api_stats (snd (track_api_call 0 (new_cache Missing True))))) = 1
   \<and> api_call_timestamps (snd (get_api_stats (snd (track_api_call 0 (new_cache Missing True)))))
       = [0]
   \<and> filter (\<lambda>t. 4000 - 3600 < t)
        (api_call_timestamps (snd (track_api_call 0 (new_cache Missing True)))) = []"
  by (simp add: get_api_stats_def track_api_call_def new_cache_def load_cache_def Let_def)

section \<open>Updating an issue\<close>

lemma update_issue_session_cache:
  "session_cache (update_issue now iid s) = session_cache s"
  by (simp add: update_issue_def track_api_call_def Let_def)

lemma update_issue_keeps_session_list:
  "fst (get_session_issues t pid (update_issue now iid s)) = fst (get_session_issues t pid s)"
  by (simp add: get_session_issues_result update_issue_session_cache)

text \<open>
  Claim C8 does not hold: \<open>update_issue\<close> leaves the session tier as it is, so a list
  stored before the update is still returned after it. Here the list of project \<open>P\<close> is
  stored at time 1000, its item \<open>X\<close> is updated at 1010, and at 1020 the list stored
  before the update is returned.
\<close>

theorem update_issue_keeps_stale_list:
  "fst (get_session_issues 1020 ''P''
     (update_issue 1010 ''X''
       (cache_session_issues 1000 ''P'' [issue_A] (new_cache Missing True)))) = Some [issue_A]"
  by (simp add: get_session_issues_result update_issue_session_cache
      cache_session_issues_session_cache)

section \<open>The session counter\<close>

text \<open>
  Claim C10. After \<open>update_session_history\<close>, whether or not the project file could be
  written, the history is the one before (empty when there was none) with the summary
  appended, and the stored \<open>session_count\<close> is the length of that history, whatever
  count was stored before.
\<close>

theorem update_session_history_count:
  "session_history (project_data (snd (update_session_history now summary st))) =
     Some ((case session_history (project_data st) of Some h \<Rightarrow> h | None \<Rightarrow> []) @ [summary])
   \<and> session_count (project_data (snd (update_session_history now summary st))) =
       map_option (\<lambda>h. int (length h))
         (session_history (project_data (snd (update_session_history now summary st))))
   \<and> session_count (project_data (snd (update_session_history now summary st))) =
       Some (int (length
         (case session_history (project_data st) of Some h \<Rightarrow> h | None \<Rightarrow> [])) + 1)"
  by (simp add: update_session_history_def save_project_data_def Let_def)

section \<open>Rounding to a double\<close>

lemma rne_lower: "\<lfloor>y\<rfloor> \<le> rne y"
  by (simp add: rne_def Let_def)

lemma rne_upper: "rne y \<le> \<lfloor>y\<rfloor> + 1"
  by (simp add: rne_def Let_def)

lemma rne_of_int: "rne (of_int k) = k"
  by (simp add: rne_def Let_def)

lemma rne_mono:
  assumes "x \<le> y"
  shows "rne x \<le> rne y"
proof (cases "\<lfloor>x\<rfloor> < \<lfloor>y\<rfloor>")
  case True
  with rne_upper [of x] rne_lower [of y] show ?thesis by linarith
next
  case False
  with floor_mono [OF assms] have same: "\<lfloor>x\<rfloor> = \<lfloor>y\<rfloor>" by linarith
  with assms have "x - of_int \<lfloor>x\<rfloor> \<le> y - of_int \<lfloor>y\<rfloor>" by simp
  then show ?thesis
    unfolding rne_def Let_def same by (auto split: if_splits)
qed

lemma rne_ge: "of_int k \<le> y \<Longrightarrow> k \<le> rne y"
  using rne_mono [of "of_int k" y] by (simp add: rne_of_int)

lemma rne_le: "y \<le> of_int k \<Longrightarrow> rne y \<le> k"
  using rne_mono [of y "of_int k"] by (simp add: rne_of_int)

lemma ilog2_bounds:
  assumes "0 < x"
  shows "2 powi (ilog2 x) \<le> x" and "x < 2 powi (ilog2 x + 1)"
proof -
  have "2 powi (ilog2 x) \<le> x \<and> x < 2 powi (ilog2 x + 1)"
  proof (cases "1 \<le> x")
    case True
    define N where "N = \<lfloor>x\<rfloor>"
    have N: "0 < N" "of_int N \<le> x" "x < of_int N + 1"
      using True by (simp_all add: N_def)
    from bitlen_bounds [OF N(1)] have b: "2 ^ nat (bitlen N - 1) \<le> N" "N < 2 ^ nat (bitlen N)"
      by simp_all
    have pos: "1 \<le> bitlen N"
      using N(1) by (simp add: bitlen_alt_def)
    have e: "ilog2 x = bitlen N - 1"
      using True by (simp add: ilog2_def N_def)
    have lo: "(2::real) powi (bitlen N - 1) = of_int (2 ^ nat (bitlen N - 1))"
      using pos by (simp add: power_int_nonneg_exp)
    have hi: "(2::real) powi (bitlen N - 1 + 1) = of_int (2 ^ nat (bitlen N))"
      using pos by (simp add: power_int_nonneg_exp)
    have "of_int (2 ^ nat (bitlen N - 1)) \<le> (of_int N :: real)"
      using b(1) by (simp only: of_int_le_iff)
    moreover have "(of_int N :: real) + 1 \<le> of_int (2 ^ nat (bitlen N))"
      using b(2) by (metis of_int_1 of_int_add of_int_le_iff zless_imp_add1_zle)
    ultimately show ?thesis
      unfolding e lo hi using N by linarith
  next
    case False
    with assms have x: "0 < x" "x < 1" by simp_all
    define M where "M = \<lceil>1 / x\<rceil>"
    define K where "K = M - 1"
    have inv: "1 < 1 / x" using x by simp
    have M: "1 / x \<le> of_int M" "of_int M - 1 < 1 / x"
      by (simp_all add: M_def) linarith
    from inv M(1) have "1 < (of_int M :: real)" by linarith
    then have K: "0 < K" by (simp add: K_def)
    from bitlen_bounds [OF K] have b: "2 ^ nat (bitlen K - 1) \<le> K" "K < 2 ^ nat (bitlen K)"
      by simp_all
    have pos: "1 \<le> bitlen K"
      using K by (simp add: bitlen_alt_def)
    have e: "ilog2 x = - bitlen K"
      using False by (simp add: ilog2_def M_def K_def)
    have lo: "(2::real) powi (- bitlen K) = 1 / of_int (2 ^ nat (bitlen K))"
      using pos by (simp add: power_int_minus_divide power_int_nonneg_exp)
    have hi: "(2::real) powi (- bitlen K + 1) = 1 / of_int (2 ^ nat (bitlen K - 1))"
    proof -
      have "- bitlen K + 1 = - (bitlen K - 1)" by simp
      then show ?thesis
        using pos by (simp only: power_int_minus_divide) (simp add: power_int_nonneg_exp)
    qed
    have up: "(of_int M :: real) \<le> of_int (2 ^ nat (bitlen K))"
      using b(2) unfolding K_def by (simp only: of_int_le_iff)
    have dn: "of_int (2 ^ nat (bitlen K - 1)) \<le> (of_int M :: real) - 1"
      using b(1) unfolding K_def
      by (metis of_int_1 of_int_diff of_int_le_iff)
    have p1: "0 < (of_int (2 ^ nat (bitlen K)) :: real)" by simp
    have p2: "0 < (of_int (2 ^ nat (bitlen K - 1)) :: real)" by simp
    have a: "1 / x \<le> of_int (2 ^ nat (bitlen K))" using M(1) up by linarith
    have c: "of_int (2 ^ nat (bitlen K - 1)) < 1 / x" using M(2) dn by linarith
    have "1 / of_int (2 ^ nat (bitlen K)) \<le> x"
      using a x(1) p1 by (simp add: field_simps)
    moreover have "x < 1 / of_int (2 ^ nat (bitlen K - 1))"
      using c x(1) p2 by (simp add: field_simps)
    ultimately show ?thesis
      unfolding e lo hi by simp
  qed
  then show "2 powi (ilog2 x) \<le> x" and "x < 2 powi (ilog2 x + 1)" by simp_all
qed


lemma two_powi_less_exp:
  assumes "(2::real) powi a < 2 powi b"
  shows "a < b"
proof (rule ccontr)
  assume "\<not> a < b"
  then have "b \<le> a" by simp
  then have "(2::real) powi b \<le> 2 powi a"
    by (intro power_int_increasing) simp_all
  with assms show False by simp
qed

lemma two_powi_div: "(2::real) powi a / 2 powi b = 2 powi (a - b)"
  by (simp add: power_int_diff)

lemma two_powi_mult: "(2::real) powi a * 2 powi b = 2 powi (a + b)"
  by (simp add: power_int_add)

lemma ilog2_mono:
  assumes "0 < x" "x \<le> y"
  shows "ilog2 x \<le> ilog2 y"
proof -
  from assms have y: "0 < y" by simp
  have "2 powi (ilog2 x) \<le> x" by (rule ilog2_bounds(1) [OF assms(1)])
  also note assms(2)
  also have "y < 2 powi (ilog2 y + 1)" by (rule ilog2_bounds(2) [OF y])
  finally have "ilog2 x < ilog2 y + 1" by (rule two_powi_less_exp)
  then show ?thesis by simp
qed

lemma ulp_expo: "ulp x = 2 powi (expo x - 52)"
  by (simp add: ulp_def)

lemma ulp_pos: "0 < ulp x"
  by (simp add: ulp_def)

lemma expo_mono: "0 < x \<Longrightarrow> x \<le> y \<Longrightarrow> expo x \<le> expo y"
  using ilog2_mono [of x y] by (simp add: expo_def)

lemma rd_nonneg: "0 \<le> x \<Longrightarrow> 0 \<le> rd x"
proof -
  assume "0 \<le> x"
  then have "of_int 0 \<le> x / ulp x"
    using ulp_pos [of x] by simp
  then have "0 \<le> rne (x / ulp x)" by (rule rne_ge)
  then show ?thesis
    using ulp_pos [of x] by (simp add: rd_def)
qed

lemma rd_upper:
  assumes "0 < x"
  shows "rd x \<le> 2 powi (expo x + 1)"
proof -
  have "x < 2 powi (ilog2 x + 1)" by (rule ilog2_bounds(2) [OF assms])
  also have "\<dots> \<le> 2 powi (expo x + 1)"
    using assms by (intro power_int_increasing) (simp_all add: expo_def)
  finally have "x / ulp x \<le> 2 powi (expo x + 1) / ulp x"
    using ulp_pos [of x] by (simp add: divide_right_mono)
  also have "\<dots> = 2 powi ((expo x + 1) - (expo x - 52))"
    unfolding ulp_expo by (rule two_powi_div)
  also have "\<dots> = of_int (2 ^ 53)"
    by simp
  finally have "rne (x / ulp x) \<le> 2 ^ 53" by (rule rne_le)
  then have "of_int (rne (x / ulp x)) \<le> (2 ^ 53 :: real)"
    by (metis of_int_le_iff of_int_numeral of_int_power)
  then have "rd x \<le> 2 ^ 53 * ulp x"
    using assms ulp_pos [of x] by (simp add: rd_def)
  also have "\<dots> = 2 powi 53 * 2 powi (expo x - 52)"
    unfolding ulp_expo by simp
  also have "\<dots> = 2 powi (53 + (expo x - 52))"
    by (rule two_powi_mult)
  finally show ?thesis by (simp add: add.commute)
qed

lemma rd_lower:
  assumes "0 < x" "- 1022 \<le> ilog2 x"
  shows "2 powi (expo x) \<le> rd x"
proof -
  from assms have e: "expo x = ilog2 x" by (simp add: expo_def)
  have "2 powi (expo x) \<le> x"
    unfolding e by (rule ilog2_bounds(1) [OF assms(1)])
  then have "2 powi (expo x) / ulp x \<le> x / ulp x"
    using ulp_pos [of x] by (simp add: divide_right_mono)
  moreover have "2 powi (expo x) / ulp x = 2 powi (expo x - (expo x - 52))"
    unfolding ulp_expo by (rule two_powi_div)
  moreover have "(2::real) powi (expo x - (expo x - 52)) = of_int (2 ^ 52)"
    by simp
  ultimately have "of_int (2 ^ 52) \<le> x / ulp x" by simp
  then have "2 ^ 52 \<le> rne (x / ulp x)" by (rule rne_ge)
  then have "(2 ^ 52 :: real) \<le> of_int (rne (x / ulp x))"
    by (metis of_int_le_iff of_int_numeral of_int_power)
  then have "2 ^ 52 * ulp x \<le> rd x"
    using assms ulp_pos [of x] by (simp add: rd_def)
  moreover have "2 ^ 52 * ulp x = 2 powi 52 * 2 powi (expo x - 52)"
    unfolding ulp_expo by simp
  moreover have "(2::real) powi 52 * 2 powi (expo x - 52) = 2 powi (52 + (expo x - 52))"
    by (rule two_powi_mult)
  ultimately show ?thesis by simp
qed

lemma rd_mono_pos:
  assumes "0 < x" "x \<le> y"
  shows "rd x \<le> rd y"
proof (cases "expo x = expo y")
  case True
  then have u: "ulp y = ulp x" by (simp add: ulp_expo)
  have "x / ulp x \<le> y / ulp x"
    using assms(2) ulp_pos [of x] by (simp add: divide_right_mono)
  then have "rne (x / ulp x) \<le> rne (y / ulp x)" by (rule rne_mono)
  then have "(of_int (rne (x / ulp x)) :: real) * ulp x \<le> of_int (rne (y / ulp x)) * ulp x"
    using ulp_pos [of x] by simp
  then show ?thesis
    using assms by (simp add: rd_def u)
next
  case False
  from assms have y: "0 < y" by simp
  from False expo_mono [OF assms] have less: "expo x < expo y" by simp
  then have "- 1022 < expo y"
    by (simp add: expo_def)
  then have big: "- 1022 \<le> ilog2 y"
    using y by (simp add: expo_def)
  have "rd x \<le> 2 powi (expo x + 1)" by (rule rd_upper [OF assms(1)])
  also have "\<dots> \<le> 2 powi (expo y)"
    using less by (intro power_int_increasing) simp_all
  also have "\<dots> \<le> rd y" by (rule rd_lower [OF y big])
  finally show ?thesis .
qed

lemma rd_zero: "rd 0 = 0"
  by (simp add: rd_def)

lemma rd_mono:
  assumes "0 \<le> x" "x \<le> y"
  shows "rd x \<le> rd y"
proof (cases "x = 0")
  case True
  with assms rd_nonneg [of y] show ?thesis by (simp add: rd_zero)
next
  case False
  with assms have "0 < x" by simp
  then show ?thesis using assms(2) by (rule rd_mono_pos)
qed

lemma rd_exact:
  assumes "0 < m" "m < 2 ^ 53" "- 1074 \<le> j"
  shows "rd (of_int m * 2 powi j) = of_int m * 2 powi j"
proof -
  define x :: real where "x = of_int m * 2 powi j"
  have x: "0 < x"
    using assms(1) by (simp add: x_def)
  have "2 powi (ilog2 x) \<le> x" by (rule ilog2_bounds(1) [OF x])
  also have "x < 2 powi 53 * 2 powi j"
  proof -
    have "(of_int m :: real) < of_int (2 ^ 53)"
      using assms(2) by (simp only: of_int_less_iff)
    then show ?thesis by (simp add: x_def)
  qed
  also have "\<dots> = 2 powi (53 + j)" by (rule two_powi_mult)
  finally have "ilog2 x < 53 + j" by (rule two_powi_less_exp)
  with assms(3) x have le: "expo x - 52 \<le> j"
    by (simp add: expo_def)
  define d where "d = nat (j - (expo x - 52))"
  have d: "int d = j - (expo x - 52)"
    using le by (simp add: d_def)
  have "x / ulp x = of_int m * (2 powi j / 2 powi (expo x - 52))"
    by (simp add: x_def ulp_expo)
  also have "\<dots> = of_int m * 2 powi (int d)"
    by (simp only: two_powi_div d)
  also have "\<dots> = of_int (m * 2 ^ d)"
    by simp
  finally have q: "x / ulp x = of_int (m * 2 ^ d)" .
  have "rd x = of_int (m * 2 ^ d) * ulp x"
    using x by (simp only: rd_def q rne_of_int) simp
  also have "\<dots> = of_int m * (2 powi (int d) * 2 powi (expo x - 52))"
    by (simp add: ulp_expo)
  also have "\<dots> = of_int m * 2 powi (int d + (expo x - 52))"
    by (simp only: two_powi_mult)
  also have "\<dots> = x"
    by (simp add: d x_def)
  finally show ?thesis by (simp only: x_def)
qed

lemma fl_int_exact:
  assumes "0 \<le> k" "k < 2 ^ 53"
  shows "fl_int k = of_int k"
proof (cases "k = 0")
  case True
  then show ?thesis by (simp add: fl_int_def rd_zero)
next
  case False
  with assms have "0 < k" by simp
  from rd_exact [OF this assms(2), of 0] show ?thesis
    by (simp add: fl_int_def)
qed

lemma quarter_exact:
  assumes "0 \<le> k" "k < 2 ^ 53"
  shows "fmul 0.25 (fl_int k) = of_int k / 4"
proof (cases "k = 0")
  case True
  then show ?thesis by (simp add: fmul_def fl_int_def rd_zero)
next
  case False
  with assms have "0 < k" by simp
  from rd_exact [OF this assms(2), of "- 2"] have "rd (of_int k / 4) = of_int k / 4"
    by simp
  then show ?thesis
    by (simp add: fmul_def fl_int_exact [OF assms])
qed

lemma rd_two_powi:
  assumes "- 1074 \<le> j"
  shows "rd (2 powi j) = 2 powi j"
  using rd_exact [of 1 j] assms by simp

lemma py_round_mono:
  assumes "0 \<le> x" "x \<le> y"
  shows "py_round x n \<le> py_round y n"
proof -
  have "of_int 0 \<le> x * 10 ^ n" using assms(1) by simp
  then have "0 \<le> rne (x * 10 ^ n)" by (rule rne_ge)
  moreover have "rne (x * 10 ^ n) \<le> rne (y * 10 ^ n)"
    using assms(2) by (intro rne_mono) simp
  ultimately show ?thesis
    unfolding py_round_def by (intro rd_mono divide_right_mono) simp_all
qed

lemma py_round_zero: "py_round 0 n = 0"
  by (simp add: py_round_def rne_def rd_zero)

section \<open>Progress\<close>

subsection \<open>The percentage never falls when an item moves forward\<close>

lemma count_state_app:
  "count_state st (xs @ i # ys) =
     count_state st xs + (if issue_state_name i = Some st then 1 else 0) + count_state st ys"
  by (simp add: count_state_def)

lemma count_state_nonneg: "0 \<le> count_state st iss"
  by (simp add: count_state_def)

lemma count_state_sum:
  "count_state ''Done'' iss + count_state ''In Progress'' iss \<le> int (length iss)"
  by (induction iss) (simp_all add: count_state_def)

lemma fl_int_nonneg: "0 \<le> k \<Longrightarrow> 0 \<le> fl_int k"
  by (simp add: fl_int_def rd_nonneg)

lemma fl_int_mono: "0 \<le> k \<Longrightarrow> k \<le> l \<Longrightarrow> fl_int k \<le> fl_int l"
  by (simp add: fl_int_def rd_mono)

lemma weighted_nonneg:
  assumes "0 \<le> c" "0 \<le> ip"
  shows "0 \<le> weighted c ip"
  unfolding weighted_def fadd_def
  by (intro rd_nonneg add_nonneg_nonneg fl_int_nonneg assms)
     (simp add: fmul_def rd_nonneg fl_int_nonneg assms)

lemma weighted_start:
  assumes "0 \<le> c" "0 \<le> ip"
  shows "weighted c ip \<le> weighted c (ip + 1)"
proof -
  have a: "0 \<le> fl_int ip" "fl_int ip \<le> fl_int (ip + 1)"
    using assms(2) by (simp_all add: fl_int_nonneg fl_int_mono)
  then have b: "0 \<le> fmul 0.25 (fl_int ip)" "fmul 0.25 (fl_int ip) \<le> fmul 0.25 (fl_int (ip + 1))"
    unfolding fmul_def by (simp add: rd_nonneg, intro rd_mono) simp_all
  show ?thesis
    unfolding weighted_def fadd_def
    using b fl_int_nonneg [OF assms(1)] by (intro rd_mono) simp_all
qed

lemma weighted_finish:
  assumes "0 \<le> c" "0 < ip" "c + ip < 2 ^ 53"
  shows "weighted c ip \<le> weighted (c + 1) (ip - 1)"
proof -
  from assms have bounds: "c < 2 ^ 53" "0 \<le> c + 1" "c + 1 < 2 ^ 53" "0 \<le> ip" "ip < 2 ^ 53"
    "0 \<le> ip - 1" "ip - 1 < 2 ^ 53"
    by simp_all
  have before: "weighted c ip = rd (of_int c + of_int ip / 4)"
    by (simp only: weighted_def fadd_def fl_int_exact [OF assms(1) bounds(1)]
        quarter_exact [OF bounds(4,5)])
  have after: "weighted (c + 1) (ip - 1) = rd (of_int (c + 1) + of_int (ip - 1) / 4)"
    by (simp only: weighted_def fadd_def fl_int_exact [OF bounds(2,3)]
        quarter_exact [OF bounds(6,7)])
  have "(of_int c :: real) + of_int ip / 4 \<le> of_int (c + 1) + of_int (ip - 1) / 4"
    by (simp add: diff_divide_distrib)
  moreover have "0 \<le> (of_int c :: real) + of_int ip / 4"
    using assms(1) bounds(4) by simp
  ultimately show ?thesis
    unfolding before after by (intro rd_mono)
qed

lemma float_progress_mono:
  assumes "length iss = length iss'"
    and "weighted (count_state ''Done'' iss) (count_state ''In Progress'' iss)
      \<le> weighted (count_state ''Done'' iss') (count_state ''In Progress'' iss')"
  shows "float_progress iss \<le> float_progress iss'"
proof (cases "0 < length iss")
  case False
  with assms(1) show ?thesis by (simp add: float_progress_def)
next
  case True
  let ?w = "weighted (count_state ''Done'' iss) (count_state ''In Progress'' iss)"
  let ?w' = "weighted (count_state ''Done'' iss') (count_state ''In Progress'' iss')"
  let ?t = "fl_int (int (length iss))"
  have w: "0 \<le> ?w"
    by (intro weighted_nonneg count_state_nonneg)
  have t: "0 \<le> ?t"
    by (simp add: fl_int_nonneg)
  have q: "0 \<le> fdiv ?w ?t" "fdiv ?w ?t \<le> fdiv ?w' ?t"
    unfolding fdiv_def using w t assms(2)
    by (simp add: rd_nonneg, intro rd_mono divide_right_mono) simp_all
  have "fmul (fdiv ?w ?t) 100 \<le> fmul (fdiv ?w' ?t) 100"
    unfolding fmul_def using q by (intro rd_mono) simp_all
  with True assms(1) show ?thesis
    by (simp add: float_progress_def)
qed

lemma float_progress_nonneg: "0 \<le> float_progress iss"
proof -
  have "0 \<le> fdiv (weighted (count_state ''Done'' iss) (count_state ''In Progress'' iss))
           (fl_int (int (length iss)))"
    unfolding fdiv_def
    by (intro rd_nonneg divide_nonneg_nonneg weighted_nonneg count_state_nonneg fl_int_nonneg)
       simp
  then show ?thesis
    by (simp add: float_progress_def fmul_def rd_nonneg)
qed

lemma float_progress_start:
  assumes "issue_state_name i \<noteq> Some ''Done''" "issue_state_name i \<noteq> Some ''In Progress''"
  shows "float_progress (xs @ i # ys) \<le>
         float_progress (xs @ i\<lparr>issue_state_name := Some ''In Progress''\<rparr> # ys)"
proof (rule float_progress_mono)
  show "length (xs @ i # ys) = length (xs @ i\<lparr>issue_state_name := Some ''In Progress''\<rparr> # ys)"
    by simp
  have "0 \<le> count_state ''Done'' xs + count_state ''Done'' ys"
    "0 \<le> count_state ''In Progress'' xs + count_state ''In Progress'' ys"
    by (simp_all add: count_state_nonneg)
  from weighted_start [OF this] assms
  show "weighted (count_state ''Done'' (xs @ i # ys)) (count_state ''In Progress'' (xs @ i # ys))
      \<le> weighted
          (count_state ''Done'' (xs @ i\<lparr>issue_state_name := Some ''In Progress''\<rparr> # ys))
          (count_state ''In Progress''
             (xs @ i\<lparr>issue_state_name := Some ''In Progress''\<rparr> # ys))"
    by (simp add: count_state_app add.commute add.left_commute)
qed

lemma float_progress_finish:
  assumes "issue_state_name i = Some ''In Progress''" "length (xs @ i # ys) < 2 ^ 53"
  shows "float_progress (xs @ i # ys) \<le>
         float_progress (xs @ i\<lparr>issue_state_name := Some ''Done''\<rparr> # ys)"
proof (rule float_progress_mono)
  show "length (xs @ i # ys) = length (xs @ i\<lparr>issue_state_name := Some ''Done''\<rparr> # ys)"
    by simp
  define c where "c = count_state ''Done'' xs + count_state ''Done'' ys"
  define p where "p = count_state ''In Progress'' xs + 1 + count_state ''In Progress'' ys"
  have c: "0 \<le> c" and p: "0 < p"
    using count_state_nonneg [of "''Done''" xs] count_state_nonneg [of "''Done''" ys]
      count_state_nonneg [of "''In Progress''" xs] count_state_nonneg [of "''In Progress''" ys]
    by (simp_all add: c_def p_def)
  have "c + p \<le> int (length (xs @ i # ys))"
    using count_state_sum [of "xs @ i # ys"] assms(1)
    by (simp add: count_state_app c_def p_def)
  also have "\<dots> < 2 ^ 53"
    using assms(2) by (metis of_nat_less_iff of_nat_numeral of_nat_power)
  finally have small: "c + p < 2 ^ 53" .
  from weighted_finish [OF c p small] assms(1)
  show "weighted (count_state ''Done'' (xs @ i # ys)) (count_state ''In Progress'' (xs @ i # ys))
      \<le> weighted
          (count_state ''Done'' (xs @ i\<lparr>issue_state_name := Some ''Done''\<rparr> # ys))
          (count_state ''In Progress'' (xs @ i\<lparr>issue_state_name := Some ''Done''\<rparr> # ys))"
    by (simp add: count_state_app c_def p_def add.commute add.left_commute)
qed

lemma calculate_progress_percentage:
  "fst (calculate_progress iss st) = Inr p \<Longrightarrow>
   progress_percentage p = py_round (float_progress iss) 1"
  by (auto simp add: calculate_progress_def float_progress_def weighted_def Let_def
      split: if_splits)

lemma true_div_positive:
  assumes "0 \<le> c" "0 < s" "0 < true_div c s"
  shows "1 \<le> c"
proof (rule ccontr)
  assume "\<not> 1 \<le> c"
  with assms(1) have "c = 0" by simp
  with assms(3) show False by (simp add: true_div_def rd_zero)
qed

lemma no_overflow:
  assumes "0 \<le> r" "r < 2 ^ 53" "1 \<le> c" "0 < s" "s \<le> 2 ^ 900"
  shows "\<not> overflows (fl_int r / true_div c s)"
proof -
  have s: "0 < (of_int s :: real)" "(of_int s :: real) \<le> 2 ^ 900"
    using assms(4,5) by (simp, metis of_int_le_iff of_int_numeral of_int_power)
  have "(2::real) powi (- 900) = 1 / 2 ^ 900"
    by (simp add: power_int_minus_divide)
  also have "\<dots> \<le> 1 / of_int s"
    using s by (intro divide_left_mono) simp_all
  also have "\<dots> \<le> of_int c / of_int s"
    using assms(3) s(1) by (intro divide_right_mono) simp_all
  finally have "rd (2 powi (- 900)) \<le> rd (of_int c / of_int s)"
    by (intro rd_mono) simp_all
  moreover have "rd (2 powi (- 900)) = 2 powi (- 900)"
    by (rule rd_two_powi) simp
  ultimately have v: "2 powi (- 900) \<le> true_div c s"
    by (simp only: true_div_def)
  then have vpos: "0 < true_div c s"
    by (rule less_le_trans [rotated]) simp
  have r: "fl_int r = of_int r" "0 \<le> (of_int r :: real)" "(of_int r :: real) \<le> 2 ^ 53"
    using assms(1,2) by (simp_all add: fl_int_exact)
  have "fl_int r / true_div c s \<le> 2 ^ 53 / true_div c s"
    unfolding r(1) using r(3) vpos by (intro divide_right_mono) simp_all
  also have "\<dots> \<le> 2 ^ 53 / 2 powi (- 900)"
    using v by (intro divide_left_mono) simp_all
  also have "\<dots> = 2 ^ 953"
    by (simp add: power_int_minus_divide)
  finally have "fl_int r / true_div c s \<le> 2 ^ 953" .
  moreover have "0 \<le> fl_int r / true_div c s"
    unfolding r(1) using r(2) vpos by simp
  ultimately show ?thesis
    by (simp add: overflows_def)
qed

lemma calculate_progress_returns:
  assumes "length iss < 2 ^ 53"
    and "\<forall>n. session_count (project_data st) = Some n \<longrightarrow> n \<le> 2 ^ 900"
  shows "\<exists>p. fst (calculate_progress iss st) = Inr p"
proof -
  define c where "c = count_state ''Done'' iss"
  define ip where "ip = count_state ''In Progress'' iss"
  define s where "s = (case session_count (project_data st) of Some n \<Rightarrow> n | None \<Rightarrow> 1)"
  define r where "r = int (length iss) - c - ip + ip"
  have c: "0 \<le> c" by (simp add: c_def count_state_nonneg)
  have "c + ip \<le> int (length iss)"
    unfolding c_def ip_def by (rule count_state_sum)
  moreover have "0 \<le> ip" by (simp add: ip_def count_state_nonneg)
  moreover have "int (length iss) < 2 ^ 53"
    using assms(1) by (metis of_nat_less_iff of_nat_numeral of_nat_power)
  ultimately have r: "0 \<le> r" "r < 2 ^ 53"
    using c by (simp_all add: r_def)
  have s: "s \<le> 2 ^ 900"
    using assms(2) by (simp add: s_def split: option.splits)
  have "\<not> overflows (fl_int r / true_div c s)" if "0 < s" "0 < true_div c s"
    using no_overflow [OF r true_div_positive [OF c that] that(1) s] .
  then show ?thesis
    unfolding calculate_progress_def Let_def c_def [symmetric] ip_def [symmetric]
      s_def [symmetric] r_def [symmetric]
    by (auto split: if_splits)
qed

text \<open>
  Claim C9. For an empty list \<open>calculate_progress\<close> returns, with the progress
  percentage 0. In any list, moving one item from a state that is neither \<^verbatim>\<open>Done\<close>
  nor \<^verbatim>\<open>In Progress\<close> to \<^verbatim>\<open>In Progress\<close>, or from \<^verbatim>\<open>In Progress\<close> to \<^verbatim>\<open>Done\<close>,
  the other items as they are, does not lower the percentage that \<open>calculate_progress\<close>
  returns: the float addition, division, multiplication and the final \<^verbatim>\<open>round\<close> are
  all monotone on the doubles. For the second move the counts must be exact as doubles,
  which they are in a list of fewer than \<open>2\<^sup>5\<^sup>3\<close> items (one that fits in memory). The
  call returns for every such list whenever the stored session count is at most
  \<open>2\<^sup>9\<^sup>0\<^sup>0\<close>; beyond, the estimate of the remaining sessions can overflow.
\<close>

theorem calculate_progress_monotone:
  "(\<exists>p. fst (calculate_progress [] st) = Inr p \<and> progress_percentage p = 0)
   \<and> (issue_state_name i \<noteq> Some ''Done'' \<and> issue_state_name i \<noteq> Some ''In Progress''
       \<and> fst (calculate_progress (xs @ i # ys) st) = Inr p
       \<and> fst (calculate_progress
            (xs @ i\<lparr>issue_state_name := Some ''In Progress''\<rparr> # ys) st) = Inr p' \<longrightarrow>
        progress_percentage p \<le> progress_percentage p')
   \<and> (issue_state_name i = Some ''In Progress'' \<and> length (xs @ i # ys) < 2 ^ 53
       \<and> fst (calculate_progress (xs @ i # ys) st) = Inr q
       \<and> fst (calculate_progress
            (xs @ i\<lparr>issue_state_name := Some ''Done''\<rparr> # ys) st) = Inr q' \<longrightarrow>
        progress_percentage q \<le> progress_percentage q')
   \<and> (length iss < 2 ^ 53
       \<and> (\<forall>n. session_count (project_data st) = Some n \<longrightarrow> n \<le> 2 ^ 900) \<longrightarrow>
        (\<exists>r. fst (calculate_progress iss st) = Inr r))"
proof -
  have empty: "\<exists>p. fst (calculate_progress [] st) = Inr p \<and> progress_percentage p = 0"
    by (simp add: calculate_progress_def count_state_def true_div_def rd_zero py_round_zero
        Let_def)
  have start: "progress_percentage p \<le> progress_percentage p'"
    if "issue_state_name i \<noteq> Some ''Done''" "issue_state_name i \<noteq> Some ''In Progress''"
      "fst (calculate_progress (xs @ i # ys) st) = Inr p"
      "fst (calculate_progress
            (xs @ i\<lparr>issue_state_name := Some ''In Progress''\<rparr> # ys) st) = Inr p'"
    unfolding calculate_progress_percentage [OF that(3)]
      calculate_progress_percentage [OF that(4)]
    by (intro py_round_mono float_progress_nonneg float_progress_start that(1,2))
  have finish: "progress_percentage q \<le> progress_percentage q'"
    if "issue_state_name i = Some ''In Progress''" "length (xs @ i # ys) < 2 ^ 53"
      "fst (calculate_progress (xs @ i # ys) st) = Inr q"
      "fst (calculate_progress
            (xs @ i\<lparr>issue_state_name := Some ''Done''\<rparr> # ys) st) = Inr q'"
    unfolding calculate_progress_percentage [OF that(3)]
      calculate_progress_percentage [OF that(4)]
    by (intro py_round_mono float_progress_nonneg float_progress_finish that(1,2))
  from empty start finish calculate_progress_returns [of iss st] show ?thesis
    by blast
qed

subsection \<open>Velocity\<close>

lemma calculate_progress_state: "snd (calculate_progress iss st) = st"
  by (simp add: calculate_progress_def Let_def)

lemma calculate_progress_fields:
  assumes "fst (calculate_progress iss st) = Inr p"
  shows "completed p = count_state ''Done'' iss"
    and "velocity p =
      (case session_count (project_data st) of
         None \<Rightarrow> py_round (true_div (count_state ''Done'' iss) 1) 2
       | Some n \<Rightarrow>
           if 0 < n then py_round (true_div (count_state ''Done'' iss) n) 2 else 0)"
  using assms
  by (auto simp add: calculate_progress_def Let_def py_round_zero
      split: option.splits if_splits)

lemma calculate_progress_idle:
  assumes "session_count (project_data st) = Some n" "n \<le> 0"
  shows "\<exists>p. fst (calculate_progress iss st) = Inr p \<and> velocity p = 0
           \<and> estimated_completion p = ''Unknown''"
  using assms by (simp add: calculate_progress_def Let_def py_round_zero)

text \<open>
  Claim C4, as amended. \<open>calculate_progress\<close> leaves the project data, and so the
  stored \<open>session_count\<close>, as they are. When it returns, with a stored count \<open>n > 0\<close>
  the velocity is \<^verbatim>\<open>round(completed / n, 2)\<close>, the float quotient rounded to two
  decimals. With a stored count of 0 (or below) it returns the velocity 0 and no
  estimate: the code guards the division with \<^verbatim>\<open>if sessions > 0 else 0\<close>. Only a
  project without a stored count is taken to have one session.
\<close>

theorem calculate_progress_velocity:
  "snd (calculate_progress iss st) = st
   \<and> (\<forall>p. fst (calculate_progress iss st) = Inr p \<longrightarrow>
        completed p = count_state ''Done'' iss
        \<and> velocity p =
            (case session_count (project_data st) of
               None \<Rightarrow> py_round (true_div (count_state ''Done'' iss) 1) 2
             | Some n \<Rightarrow>
                 if 0 < n then py_round (true_div (count_state ''Done'' iss) n) 2 else 0))
   \<and> (\<forall>n. session_count (project_data st) = Some n \<and> n \<le> 0 \<longrightarrow>
        (\<exists>p. fst (calculate_progress iss st) = Inr p \<and> velocity p = 0
           \<and> estimated_completion p = ''Unknown''))"
  using calculate_progress_state [of iss st] calculate_progress_fields [of iss st]
    calculate_progress_idle [of st _ iss]
  by blast

subsection \<open>Runs on numerals\<close>

text \<open>The definitions that evaluate a float expression on numerals.\<close>

lemmas float_eval =
  fl_int_def fadd_def fmul_def fdiv_def true_div_def py_round_def rd_def ulp_def expo_def
  ilog2_def compute_bitlen rne_def overflows_def

lemma count_state_replicate:
  "count_state st (replicate n x) = (if issue_state_name x = Some st then int n else 0)"
  by (simp add: count_state_def)

lemma count_state_append: "count_state st (xs @ ys) = count_state st xs + count_state st ys"
  by (simp add: count_state_def)

lemma session_counts:
  "session_count (project_data fresh_project) = Some 0"
  "session_count (project_data third_session) = Some 3"
  "session_count (project_data seventh_session) = Some 7"
  "session_count (project_data fortieth_session) = Some 40"
  by (simp_all add: fresh_project_def third_session_def seventh_session_def
      fortieth_session_def create_initializer_summary_def)

text \<open>
  The doubles of \<^verbatim>\<open>2 / 1\<close>, \<^verbatim>\<open>1 / 3\<close>, \<^verbatim>\<open>round(1 / 3, 2)\<close> (0.33) and
  \<^verbatim>\<open>round(1 / 40, 2)\<close> (0.03: the double of \<^verbatim>\<open>1 / 40\<close> is above 0.025).
\<close>

lemma doubles:
  "true_div 2 1 = 2"
  "true_div 1 3 = 6004799503160661 / 2 ^ 54"
  "py_round (true_div 1 3) 2 = 5944751508129055 / 2 ^ 54"
  "py_round (true_div 1 40) 2 = 1080863910568919 / 2 ^ 55"
  by (simp_all add: float_eval Let_def)

text \<open>
  Two runs in full. Five items done and three in progress of twenty: the float
  percentage is just below 28.75 and rounds to the double of 28.7. Nine items done of
  twenty-seven after seven sessions: the estimate \<^verbatim>\<open>18 / (9 / 7) * 0.5\<close> is just below
  7 and prints as 6 days.
\<close>

lemma calculate_progress_examples:
  "fst (calculate_progress
     (replicate 5 issue_B @ replicate 3 (issue_A\<lparr>issue_state_name := Some ''In Progress''\<rparr>)
        @ replicate 12 issue_A) fresh_project) =
   Inr \<lparr>total_issues = 20, completed = 5, in_progress = 3, todo = 12,
        progress_percentage = 8078331831595827 / 2 ^ 48, velocity = 0,
        estimated_completion = ''Unknown''\<rparr>"
  "fst (calculate_progress (replicate 9 issue_B @ replicate 18 issue_A) seventh_session) =
   Inr \<lparr>total_issues = 27, completed = 9, in_progress = 0, todo = 18,
        progress_percentage = 2343279181116211 / 2 ^ 46,
        velocity = 1452410879826985 / 2 ^ 50,
        estimated_completion = ''6 days''\<rparr>"
  unfolding calculate_progress_def Let_def
  by (simp_all add: count_state_replicate count_state_append
      issue_A_def issue_B_def session_counts float_eval Let_def py_int_def str_int_def)

text \<open>
  One item done and two to do, the second item moving to \<^verbatim>\<open>In Progress\<close> and then to
  \<^verbatim>\<open>Done\<close>: the three calls return and the percentage does not fall.
\<close>

theorem calculate_progress_monotone_witness:
  "\<not> isl (fst (calculate_progress [issue_B, issue_A, issue_A] fresh_project))
   \<and> \<not> isl (fst (calculate_progress
        [issue_B, issue_A\<lparr>issue_state_name := Some ''In Progress''\<rparr>, issue_A]
        fresh_project))
   \<and> \<not> isl (fst (calculate_progress
        [issue_B, issue_A\<lparr>issue_state_name := Some ''Done''\<rparr>, issue_A] fresh_project))
   \<and> progress_percentage (projr (fst (calculate_progress
          [issue_B, issue_A, issue_A] fresh_project)))
     \<le> progress_percentage (projr (fst (calculate_progress
          [issue_B, issue_A\<lparr>issue_state_name := Some ''In Progress''\<rparr>, issue_A]
          fresh_project)))
   \<and> progress_percentage (projr (fst (calculate_progress
          [issue_B, issue_A\<lparr>issue_state_name := Some ''In Progress''\<rparr>, issue_A]
          fresh_project)))
     \<le> progress_percentage (projr (fst (calculate_progress
          [issue_B, issue_A\<lparr>issue_state_name := Some ''Done''\<rparr>, issue_A]
          fresh_project)))"
proof -
  let ?started = "issue_A\<lparr>issue_state_name := Some ''In Progress''\<rparr>"
  let ?finished = "issue_A\<lparr>issue_state_name := Some ''Done''\<rparr>"
  have sane: "\<forall>n. session_count (project_data fresh_project) = Some n \<longrightarrow> n \<le> 2 ^ 900"
    by (simp add: session_counts)
  from calculate_progress_monotone
    [where iss = "[issue_B, issue_A, issue_A]" and st = fresh_project,
      THEN conjunct2, THEN conjunct2, THEN conjunct2] sane
  have "\<exists>p. fst (calculate_progress [issue_B, issue_A, issue_A] fresh_project) = Inr p"
    by simp
  then obtain p0
    where p0: "fst (calculate_progress [issue_B, issue_A, issue_A] fresh_project) = Inr p0" ..
  from calculate_progress_monotone
    [where iss = "[issue_B, ?started, issue_A]" and st = fresh_project,
      THEN conjunct2, THEN conjunct2, THEN conjunct2] sane
  have "\<exists>p. fst (calculate_progress [issue_B, ?started, issue_A] fresh_project) = Inr p"
    by simp
  then obtain p1
    where p1: "fst (calculate_progress [issue_B, ?started, issue_A] fresh_project) = Inr p1" ..
  from calculate_progress_monotone
    [where iss = "[issue_B, ?finished, issue_A]" and st = fresh_project,
      THEN conjunct2, THEN conjunct2, THEN conjunct2] sane
  have "\<exists>p. fst (calculate_progress [issue_B, ?finished, issue_A] fresh_project) = Inr p"
    by simp
  then obtain p2
    where p2: "fst (calculate_progress [issue_B, ?finished, issue_A] fresh_project) = Inr p2" ..
  have todo: "issue_state_name issue_A \<noteq> Some ''Done''"
    "issue_state_name issue_A \<noteq> Some ''In Progress''"
    by (simp_all add: issue_A_def)
  from calculate_progress_monotone
    [where i = issue_A and xs = "[issue_B]" and ys = "[issue_A]"
      and st = fresh_project and p = p0 and p' = p1, THEN conjunct2, THEN conjunct1]
    todo p0 p1
  have a: "progress_percentage p0 \<le> progress_percentage p1"
    by simp
  from calculate_progress_monotone
    [where i = ?started and xs = "[issue_B]" and ys = "[issue_A]"
      and st = fresh_project and q = p1 and q' = p2,
      THEN conjunct2, THEN conjunct2, THEN conjunct1] p1 p2
  have b: "progress_percentage p1 \<le> progress_percentage p2"
    by simp
  from a b show ?thesis
    by (simp add: p0 p1 p2)
qed

text \<open>
  In \<open>fresh_project\<close>, whose count is the 0 that \<open>create_initializer_summary\<close> stores,
  two completed items give velocity 0 and the count stays 0. After 40 sessions, one
  completed item gives the double of 0.03.
\<close>

theorem calculate_progress_velocity_witness:
  "\<not> isl (fst (calculate_progress [issue_B, issue_B, issue_A] fresh_project))
   \<and> velocity (projr (fst (calculate_progress [issue_B, issue_B, issue_A] fresh_project))) = 0
   \<and> completed (projr (fst (calculate_progress [issue_B, issue_B, issue_A] fresh_project))) = 2
   \<and> session_count (project_data (snd
        (calculate_progress [issue_B, issue_B, issue_A] fresh_project))) = Some 0
   \<and> \<not> isl (fst (calculate_progress [issue_B] fortieth_session))
   \<and> velocity (projr (fst (calculate_progress [issue_B] fortieth_session))) =
       1080863910568919 / 2 ^ 55"
proof -
  have two: "count_state ''Done'' [issue_B, issue_B, issue_A] = 2"
    and one: "count_state ''Done'' [issue_B] = 1"
    by (simp_all add: count_state_def issue_A_def issue_B_def)
  from calculate_progress_velocity [of "[issue_B, issue_B, issue_A]" fresh_project]
    session_counts(1)
  obtain p where p: "fst (calculate_progress [issue_B, issue_B, issue_A] fresh_project) = Inr p"
    "velocity p = 0"
    by auto
  from calculate_progress_velocity [of "[issue_B, issue_B, issue_A]" fresh_project] p(1) two
  have cnt: "completed p = 2"
    and kept: "snd (calculate_progress [issue_B, issue_B, issue_A] fresh_project) = fresh_project"
    by simp_all
  have "\<exists>q. fst (calculate_progress [issue_B] fortieth_session) = Inr q"
    by (rule calculate_progress_returns) (simp_all add: session_counts)
  then obtain q where q: "fst (calculate_progress [issue_B] fortieth_session) = Inr q" ..
  from calculate_progress_velocity [of "[issue_B]" fortieth_session] q one
  have "velocity q = py_round (true_div 1 40) 2"
    by (simp add: session_counts)
  then have rounded: "velocity q = 1080863910568919 / 2 ^ 55"
    by (simp only: doubles(4))
  from p cnt kept q rounded show ?thesis
    by (simp add: session_counts)
qed

text \<open>
  Claim C4 as stated fails. With the stored count 0 and two completed items the velocity
  is 0, where \<^verbatim>\<open>completed / max(n, 1)\<close> is 2. With the stored count 3 and one completed
  item the velocity is the double of 0.33, the quotient rounded to two decimals, where
  \<^verbatim>\<open>completed / max(n, 1)\<close> is the double of \<^verbatim>\<open>1 / 3\<close>.
\<close>

theorem calculate_progress_velocity_not_quotient:
  "session_count (project_data fresh_project) = Some 0
   \<and> \<not> isl (fst (calculate_progress [issue_B, issue_B, issue_A] fresh_project))
   \<and> completed (projr (fst (calculate_progress [issue_B, issue_B, issue_A] fresh_project))) = 2
   \<and> velocity (projr (fst (calculate_progress [issue_B, issue_B, issue_A] fresh_project))) = 0
   \<and> true_div 2 (max 0 1) = 2
   \<and> session_count (project_data third_session) = Some 3
   \<and> \<not> isl (fst (calculate_progress [issue_B, issue_A] third_session))
   \<and> completed (projr (fst (calculate_progress [issue_B, issue_A] third_session))) = 1
   \<and> velocity (projr (fst (calculate_progress [issue_B, issue_A] third_session))) =
       5944751508129055 / 2 ^ 54
   \<and> true_div 1 (max 3 1) = 6004799503160661 / 2 ^ 54"
proof -
  have two: "count_state ''Done'' [issue_B, issue_B, issue_A] = 2"
    and one: "count_state ''Done'' [issue_B, issue_A] = 1"
    by (simp_all add: count_state_def issue_A_def issue_B_def)
  from calculate_progress_idle [OF session_counts(1), of "[issue_B, issue_B, issue_A]"]
  obtain p where p: "fst (calculate_progress [issue_B, issue_B, issue_A] fresh_project) = Inr p"
    "velocity p = 0"
    by auto
  from calculate_progress_fields(1) [OF p(1)] two have pc: "completed p = 2"
    by simp
  have "\<exists>q. fst (calculate_progress [issue_B, issue_A] third_session) = Inr q"
    by (rule calculate_progress_returns) (simp_all add: session_counts)
  then obtain q where q: "fst (calculate_progress [issue_B, issue_A] third_session) = Inr q" ..
  from calculate_progress_fields [OF q] one
  have qc: "completed q = 1" and "velocity q = py_round (true_div 1 3) 2"
    by (simp_all add: session_counts)
  then have qv: "velocity q = 5944751508129055 / 2 ^ 54"
    by (simp only: doubles(3))
  have m: "max (0::int) 1 = 1" "max (3::int) 1 = 3"
    by simp_all
  from p pc q qc qv show ?thesis
    by (simp only: m doubles session_counts) simp
qed

end
